theory Spec2Isabelle
  imports
    Complex_Main
    "HOL-Library.Multiset"
    "HOL-Library.Char_ord"
    "HOL-Library.List_Lexorder"
    "HOL-Library.Sublist"
begin

section \<open>Python values used by the health monitor\<close>

text \<open>
  Exceptions are values.  The three psutil classes are the ones the collectors name in
  their handlers; \<open>ZombieProcess\<close> is a subclass of \<open>NoSuchProcess\<close> in psutil, so a
  handler for \<open>NoSuchProcess\<close> also takes it.  \<open>OtherException\<close> stands for any class
  that no handler of the package names.
\<close>

datatype py_exn = NoSuchProcess | AccessDenied | ZombieProcess | AttributeError | OtherException

fun isinstance_exn :: "py_exn \<Rightarrow> py_exn \<Rightarrow> bool" where
  "isinstance_exn ZombieProcess NoSuchProcess = True"
| "isinstance_exn e c = (e = c)"

definition except_any :: "py_exn list \<Rightarrow> py_exn \<Rightarrow> bool" where
  "except_any classes e = list_ex (isinstance_exn e) classes"

text \<open>A field that holds either a value or the sentinel string \<open>"N/A"\<close>.\<close>

datatype 'a or_na = NA | Val 'a

text \<open>
  Floats are modelled as reals (psutil reports finite percentages, on which the float
  order is the real order).  \<open>round(x, 2)\<close> rounds to two decimals, ties to even.
\<close>

definition py_round2 :: "real \<Rightarrow> real" where
  "py_round2 x =
     (let y = x * 100; f = \<lfloor>y\<rfloor>; d = y - of_int f
      in of_int (if d < 1 / 2 then f else if 1 / 2 < d then f + 1
                 else if even f then f else f + 1) / 100)"

text \<open>\<open>xs[:n]\<close>: a negative bound counts from the end, and no bound is out of range.\<close>

definition slice_to :: "'a list \<Rightarrow> int \<Rightarrow> 'a list" where
  "slice_to xs n = (if n < 0 then take (nat (int (length xs) + n)) xs else take (nat n) xs)"

text \<open>
  \<open>list.sort(key=k)\<close> is a stable ascending sort; with \<open>reverse=True\<close> the list is
  reversed, sorted stably and reversed again, so that equal keys keep their original order.
\<close>

definition py_sort :: "('a \<Rightarrow> 'k::linorder) \<Rightarrow> 'a list \<Rightarrow> 'a list" where
  "py_sort k xs = sort_key k xs"

definition py_sort_reverse :: "('a \<Rightarrow> 'k::linorder) \<Rightarrow> 'a list \<Rightarrow> 'a list" where
  "py_sort_reverse k xs = rev (sort_key k (rev xs))"

text \<open>\<open>str.lower()\<close> on ASCII text.\<close>

definition lower_char :: "char \<Rightarrow> char" where
  "lower_char c =
     (let n = (of_char c :: nat) in if 65 \<le> n \<and> n \<le> 90 then char_of (n + 32) else c)"

definition lower :: "string \<Rightarrow> string" where
  "lower s = map lower_char s"

text \<open>
  \<open>defaultdict(int)\<close> and \<open>dict\<close> keep insertion order, so both are association
  lists.  \<open>d[k] += 1\<close> on a \<open>dict\<close> is only ever run on a key that is present;
  on a \<open>defaultdict(int)\<close> a missing key is first inserted with 0.
\<close>

type_synonym counts = "(string \<times> int) list"

fun dict_incr :: "string \<Rightarrow> counts \<Rightarrow> counts" where
  "dict_incr k [] = []"
| "dict_incr k ((k', v) # d) = (if k' = k then (k', v + 1) # d else (k', v) # dict_incr k d)"

fun defaultdict_incr :: "string \<Rightarrow> counts \<Rightarrow> counts" where
  "defaultdict_incr k [] = [(k, 1)]"
| "defaultdict_incr k ((k', v) # d) =
     (if k' = k then (k', v + 1) # d else (k', v) # defaultdict_incr k d)"

definition dict_values :: "counts \<Rightarrow> int list" where
  "dict_values d = map snd d"

definition dict_get :: "counts \<Rightarrow> string \<Rightarrow> int" where
  "dict_get d k = (case map_of d k of None \<Rightarrow> 0 | Some v \<Rightarrow> v)"


section \<open>processes.py\<close>

text \<open>
  \<open>proc.info\<close> as \<open>psutil.process_iter\<close> fills it.  The fields the source guards with
  \<open>or\<close> or a conditional may be \<open>None\<close>; the others are copied as they are.
  \<open>pi_memory_info\<close> is the \<open>rss\<close> of the memory tuple.
\<close>

record pinfo =
  pi_pid :: int
  pi_name :: string
  pi_username :: "string option"
  pi_status :: string
  pi_cpu_percent :: "real option"
  pi_memory_percent :: "real option"
  pi_memory_info :: "int option"
  pi_num_threads :: int
  pi_create_time :: real

record process =
  p_pid :: int
  p_name :: string
  p_username :: string
  p_status :: string
  p_cpu_percent :: real
  p_memory_percent :: real
  p_memory_mb :: real
  p_num_threads :: int
  p_create_time :: real

text \<open>The dictionary appended in the body of the loop of \<open>enumerate_processes\<close>.\<close>

definition process_of :: "pinfo \<Rightarrow> process" where
  "process_of i =
     \<lparr> p_pid = pi_pid i,
       p_name = pi_name i,
       p_username = (case pi_username i of None \<Rightarrow> ''N/A''
                     | Some u \<Rightarrow> if u = [] then ''N/A'' else u),
       p_status = pi_status i,
       p_cpu_percent = (case pi_cpu_percent i of None \<Rightarrow> 0 | Some c \<Rightarrow> if c = 0 then 0 else c),
       p_memory_percent =
         py_round2 (case pi_memory_percent i of None \<Rightarrow> 0 | Some m \<Rightarrow> if m = 0 then 0 else m),
       p_memory_mb = (case pi_memory_info i of None \<Rightarrow> 0
                      | Some rss \<Rightarrow> py_round2 (of_int rss / (1024 ^ 2))),
       p_num_threads = pi_num_threads i,
       p_create_time = pi_create_time i \<rparr>"

text \<open>
  One pass over \<open>psutil.process_iter\<close>: each item either gives its \<open>info\<close> or raises
  in the body of the \<open>try\<close>.  A raised exception that the handler names skips the item;
  any other leaves the function.
\<close>

fun enumerate_loop :: "(py_exn + pinfo) list \<Rightarrow> process list \<Rightarrow> py_exn + process list" where
  "enumerate_loop [] processes = Inr processes"
| "enumerate_loop (Inr i # rest) processes = enumerate_loop rest (processes @ [process_of i])"
| "enumerate_loop (Inl e # rest) processes =
     (if except_any [NoSuchProcess, AccessDenied, ZombieProcess] e
      then enumerate_loop rest processes else Inl e)"

definition sort_processes :: "string \<Rightarrow> process list \<Rightarrow> process list" where
  "sort_processes sort_by processes =
     (if sort_by = ''memory'' then py_sort_reverse p_memory_percent processes
      else if sort_by = ''cpu'' then py_sort_reverse p_cpu_percent processes
      else if sort_by = ''pid'' then py_sort p_pid processes
      else if sort_by = ''name'' then py_sort (\<lambda>x. lower (p_name x)) processes
      else processes)"

text \<open>\<open>if limit:\<close> holds for an integer other than 0, and not for \<open>None\<close>.\<close>

fun truthy :: "int option \<Rightarrow> bool" where
  "truthy None = False"
| "truthy (Some n) = (n \<noteq> 0)"

definition apply_limit :: "int option \<Rightarrow> 'a list \<Rightarrow> 'a list" where
  "apply_limit limit processes =
     (case limit of None \<Rightarrow> processes
      | Some n \<Rightarrow> if truthy limit then slice_to processes n else processes)"

definition enumerate_processes ::
  "string \<Rightarrow> int option \<Rightarrow> (py_exn + pinfo) list \<Rightarrow> py_exn + process list" where
  "enumerate_processes sort_by limit table =
     (case enumerate_loop table [] of
        Inl e \<Rightarrow> Inl e
      | Inr processes \<Rightarrow> Inr (apply_limit limit (sort_processes sort_by processes)))"

text \<open>
  \<open>get_process_summary\<close>: its own pass, asking for the status only.  The handler names
  \<open>NoSuchProcess\<close> and \<open>AccessDenied\<close>.
\<close>

definition status_count0 :: counts where
  "status_count0 =
     [(''running'', 0), (''sleeping'', 0), (''stopped'', 0), (''zombie'', 0), (''other'', 0)]"

definition count_status :: "string \<Rightarrow> counts \<Rightarrow> counts" where
  "count_status status status_count =
     (if status \<in> fst ` set status_count then dict_incr status status_count
      else dict_incr ''other'' status_count)"

fun summary_loop :: "(py_exn + string) list \<Rightarrow> counts \<Rightarrow> py_exn + counts" where
  "summary_loop [] status_count = Inr status_count"
| "summary_loop (Inr status # rest) status_count =
     summary_loop rest (count_status status status_count)"
| "summary_loop (Inl e # rest) status_count =
     (if except_any [NoSuchProcess, AccessDenied] e
      then summary_loop rest status_count else Inl e)"

definition get_process_summary :: "(py_exn + string) list \<Rightarrow> py_exn + counts" where
  "get_process_summary table =
     (case summary_loop table status_count0 of
        Inl e \<Rightarrow> Inl e
      | Inr status_count \<Rightarrow>
          Inr ((''total_processes'', sum_list (dict_values status_count)) # status_count))"

record process_report =
  summary :: counts
  top_processes_by_memory :: "process list"
  top_processes_by_cpu :: "process list"

text \<open>
  \<open>collect_process_info\<close> reads the process table three times, in this order; each
  reading is an argument.
\<close>

definition collect_process_info ::
  "int \<Rightarrow> (py_exn + string) list \<Rightarrow> (py_exn + pinfo) list \<Rightarrow> (py_exn + pinfo) list
     \<Rightarrow> py_exn + process_report" where
  "collect_process_info top_n table1 table2 table3 =
     (case get_process_summary table1 of
        Inl e \<Rightarrow> Inl e
      | Inr s \<Rightarrow>
         (case enumerate_processes ''memory'' (Some top_n) table2 of
            Inl e \<Rightarrow> Inl e
          | Inr by_memory \<Rightarrow>
             (case enumerate_processes ''cpu'' (Some top_n) table3 of
                Inl e \<Rightarrow> Inl e
              | Inr by_cpu \<Rightarrow>
                  Inr \<lparr> summary = s,
                        top_processes_by_memory = by_memory,
                        top_processes_by_cpu = by_cpu \<rparr>)))"

text \<open>The items of a pass that reach the end of the loop body.\<close>

definition survivors :: "('e + 'a) list \<Rightarrow> 'a list" where
  "survivors table = [x. Inr x \<leftarrow> table]"

section \<open>network.py\<close>

text \<open>
  The socket type of a connection is a member of \<open>socket.SocketKind\<close>, or the plain
  integer when the number names no member.  \<open>str\<close> prints a member by its name and an
  integer by its decimal digits (an interpreter that prints a member as its number gives
  the string of that integer).
\<close>

datatype socket_kind =
  SOCK_STREAM | SOCK_DGRAM | SOCK_RAW | SOCK_RDM | SOCK_SEQPACKET | SOCK_CLOEXEC | SOCK_NONBLOCK

datatype socket_type = Kind socket_kind | Num int

fun kind_name :: "socket_kind \<Rightarrow> string" where
  "kind_name SOCK_STREAM = ''SOCK_STREAM''"
| "kind_name SOCK_DGRAM = ''SOCK_DGRAM''"
| "kind_name SOCK_RAW = ''SOCK_RAW''"
| "kind_name SOCK_RDM = ''SOCK_RDM''"
| "kind_name SOCK_SEQPACKET = ''SOCK_SEQPACKET''"
| "kind_name SOCK_CLOEXEC = ''SOCK_CLOEXEC''"
| "kind_name SOCK_NONBLOCK = ''SOCK_NONBLOCK''"

function str_nat :: "nat \<Rightarrow> string" where
  "str_nat n = (if n < 10 then [''0123456789'' ! n]
                else str_nat (n div 10) @ [''0123456789'' ! (n mod 10)])"
  by pat_completeness auto
termination
  by (relation "measure id") auto

declare str_nat.simps [simp del]

definition str_int :: "int \<Rightarrow> string" where
  "str_int i = (if i < 0 then ''-'' @ str_nat (nat (- i)) else str_nat (nat i))"

fun str_socket_type :: "socket_type \<Rightarrow> string" where
  "str_socket_type (Kind k) = ''SocketKind.'' @ kind_name k"
| "str_socket_type (Num i) = str_int i"

text \<open>
  A connection tuple of \<open>psutil.net_connections\<close>.  \<open>family\<close> is given in its
  string form; an empty address tuple is \<open>None\<close>.
\<close>

record sconn =
  sc_fd :: int
  sc_family :: string
  sc_type :: socket_type
  sc_laddr :: "(string \<times> int) option"
  sc_raddr :: "(string \<times> int) option"
  sc_status :: string
  sc_pid :: "int option"

record conn =
  c_fd :: int
  c_family :: string
  c_type :: string
  c_local_address :: string
  c_local_port :: "int or_na"
  c_remote_address :: string
  c_remote_port :: "int or_na"
  c_status :: string
  c_pid :: "int or_na"

definition conn_of :: "sconn \<Rightarrow> conn" where
  "conn_of s =
     \<lparr> c_fd = sc_fd s,
       c_family = sc_family s,
       c_type = str_socket_type (sc_type s),
       c_local_address = (case sc_laddr s of None \<Rightarrow> ''N/A'' | Some (ip, port) \<Rightarrow> ip),
       c_local_port = (case sc_laddr s of None \<Rightarrow> NA | Some (ip, port) \<Rightarrow> Val port),
       c_remote_address = (case sc_raddr s of None \<Rightarrow> ''N/A'' | Some (ip, port) \<Rightarrow> ip),
       c_remote_port = (case sc_raddr s of None \<Rightarrow> NA | Some (ip, port) \<Rightarrow> Val port),
       c_status = sc_status s,
       c_pid = (case sc_pid s of None \<Rightarrow> NA | Some p \<Rightarrow> if p = 0 then NA else Val p) \<rparr>"

text \<open>
  The inner \<open>try\<close>: an item whose attributes raise \<open>AttributeError\<close> or
  \<open>AccessDenied\<close> is skipped.  Any other exception leaves the loop, with the
  connections gathered so far.
\<close>

fun connections_loop :: "(py_exn + sconn) list \<Rightarrow> conn list \<Rightarrow> conn list \<times> py_exn option" where
  "connections_loop [] connections = (connections, None)"
| "connections_loop (Inr s # rest) connections = connections_loop rest (connections @ [conn_of s])"
| "connections_loop (Inl e # rest) connections =
     (if except_any [AttributeError, AccessDenied] e
      then connections_loop rest connections else (connections, Some e))"

text \<open>
  The outer \<open>try\<close>: \<open>psutil.net_connections\<close> either returns its list or raises;
  \<open>AccessDenied\<close> is passed over and the connections gathered so far are returned.
\<close>

definition collect_network_connections ::
  "py_exn + (py_exn + sconn) list \<Rightarrow> py_exn + conn list" where
  "collect_network_connections net =
     (case net of
        Inl e \<Rightarrow> if except_any [AccessDenied] e then Inr [] else Inl e
      | Inr items \<Rightarrow>
         (case connections_loop items [] of
            (connections, None) \<Rightarrow> Inr connections
          | (connections, Some e) \<Rightarrow>
              if except_any [AccessDenied] e then Inr connections else Inl e))"

record listening_port =
  l_port :: int
  l_address :: string
  l_pid :: "int or_na"

text \<open>
  The body of the loop of \<open>get_network_summary\<close>.  \<open>x in s\<close> on strings is the
  contiguous-substring test.  A port that passes the test against \<open>"N/A"\<close> is an
  integer.
\<close>

definition summary_step ::
  "conn \<Rightarrow> counts \<times> counts \<times> listening_port list \<Rightarrow> counts \<times> counts \<times> listening_port list" where
  "summary_step c acc =
     (case acc of (status_count, protocol_count, listening_ports) \<Rightarrow>
       (defaultdict_incr (c_status c) status_count,
        (if sublist ''STREAM'' (c_type c) then defaultdict_incr ''TCP'' protocol_count
         else if sublist ''DGRAM'' (c_type c) then defaultdict_incr ''UDP'' protocol_count
         else protocol_count),
        (if c_status c = ''LISTEN'' \<and> c_local_port c \<noteq> NA
         then (case c_local_port c of
                 Val port \<Rightarrow>
                   listening_ports @
                     [\<lparr> l_port = port, l_address = c_local_address c, l_pid = c_pid c \<rparr>]
               | NA \<Rightarrow> listening_ports)
         else listening_ports)))"

fun network_loop ::
  "conn list \<Rightarrow> counts \<times> counts \<times> listening_port list \<Rightarrow> counts \<times> counts \<times> listening_port list" where
  "network_loop [] acc = acc"
| "network_loop (c # rest) acc = network_loop rest (summary_step c acc)"

record network_summary =
  total_connections :: int
  by_status :: counts
  by_protocol :: counts
  listening_ports :: "listening_port list"

definition summarize :: "conn list \<Rightarrow> network_summary" where
  "summarize connections =
     (case network_loop connections ([], [], []) of
        (status_count, protocol_count, ports) \<Rightarrow>
          \<lparr> total_connections = int (length connections),
            by_status = status_count,
            by_protocol = protocol_count,
            listening_ports = py_sort l_port ports \<rparr>)"

definition get_network_summary ::
  "py_exn + (py_exn + sconn) list \<Rightarrow> py_exn + network_summary" where
  "get_network_summary net =
     (case collect_network_connections net of
        Inl e \<Rightarrow> Inl e
      | Inr connections \<Rightarrow> Inr (summarize connections))"

text \<open>
  \<open>collect_network_info\<close>: the summary reads the connections once, and
  \<open>include_all_connections\<close> reads them a second time.  The result of
  \<open>collect_network_interfaces\<close> is an argument.
\<close>

record 'i network_info =
  n_summary :: network_summary
  n_interfaces :: 'i
  n_all_connections :: "conn list option"

definition collect_network_info ::
  "bool \<Rightarrow> py_exn + (py_exn + sconn) list \<Rightarrow> py_exn + 'i \<Rightarrow> py_exn + (py_exn + sconn) list
     \<Rightarrow> py_exn + 'i network_info" where
  "collect_network_info include_all_connections net1 interfaces net2 =
     (case get_network_summary net1 of
        Inl e \<Rightarrow> Inl e
      | Inr s \<Rightarrow>
         (case interfaces of
            Inl e \<Rightarrow> Inl e
          | Inr ifs \<Rightarrow>
             (if include_all_connections
              then (case collect_network_connections net2 of
                      Inl e \<Rightarrow> Inl e
                    | Inr connections \<Rightarrow>
                        Inr \<lparr> n_summary = s, n_interfaces = ifs,
                              n_all_connections = Some connections \<rparr>)
              else Inr \<lparr> n_summary = s, n_interfaces = ifs, n_all_connections = None \<rparr>)))"


section \<open>logger.py and collector.py\<close>

record health_logger =
  output_dir :: string
  format :: string

definition HealthLogger :: "string \<Rightarrow> string \<Rightarrow> health_logger" where
  "HealthLogger dir fmt = \<lparr> output_dir = dir, format = lower fmt \<rparr>"

text \<open>The argument \<open>timestamp\<close> is the clock reading, already formatted.\<close>

definition generate_filename :: "health_logger \<Rightarrow> string \<Rightarrow> string" where
  "generate_filename lg timestamp =
     (let extension = (if format lg = ''json'' then ''json'' else ''log'')
      in ''health_monitor_'' @ timestamp @ ''.'' @ extension)"

text \<open>
  \<open>write_log\<close>: the two renderers are arguments (\<open>format_json\<close> is
  \<open>json.dumps\<close>; \<open>format_text\<close> prints floats).  The file written is returned as
  its directory, its name and its content.
\<close>

record written_file =
  w_dir :: string
  w_filename :: string
  w_content :: string

definition write_log ::
  "('d \<Rightarrow> string) \<Rightarrow> ('d \<Rightarrow> string) \<Rightarrow> health_logger \<Rightarrow> string \<Rightarrow> 'd \<Rightarrow> written_file" where
  "write_log format_json format_text lg timestamp enhanced_data =
     (let content = (if format lg = ''json'' then format_json enhanced_data
                     else format_text enhanced_data);
          filename = generate_filename lg timestamp
      in \<lparr> w_dir = output_dir lg, w_filename = filename, w_content = content \<rparr>)"

record health_collector =
  top_processes :: int
  include_all_connections :: bool
  logger :: health_logger

definition HealthCollector :: "int \<Rightarrow> bool \<Rightarrow> string \<Rightarrow> string \<Rightarrow> health_collector" where
  "HealthCollector top_n all_conns dir fmt =
     \<lparr> top_processes = top_n, include_all_connections = all_conns,
       logger = HealthLogger dir fmt \<rparr>"

text \<open>What the operating system answers to each query of one run, in the order asked.\<close>

record ('m, 'i) probe =
  pr_metrics :: "py_exn + 'm"
  pr_table1 :: "(py_exn + string) list"
  pr_table2 :: "(py_exn + pinfo) list"
  pr_table3 :: "(py_exn + pinfo) list"
  pr_net1 :: "py_exn + (py_exn + sconn) list"
  pr_interfaces :: "py_exn + 'i"
  pr_net2 :: "py_exn + (py_exn + sconn) list"

record ('m, 'i) health_data =
  h_metrics :: 'm
  h_processes :: process_report
  h_network :: "'i network_info"

definition collect_all ::
  "health_collector \<Rightarrow> ('m, 'i) probe \<Rightarrow> py_exn + ('m, 'i) health_data" where
  "collect_all self os =
     (case pr_metrics os of
        Inl e \<Rightarrow> Inl e
      | Inr metrics \<Rightarrow>
         (case collect_process_info (top_processes self)
                 (pr_table1 os) (pr_table2 os) (pr_table3 os) of
            Inl e \<Rightarrow> Inl e
          | Inr processes \<Rightarrow>
             (case collect_network_info (include_all_connections self)
                     (pr_net1 os) (pr_interfaces os) (pr_net2 os) of
                Inl e \<Rightarrow> Inl e
              | Inr network \<Rightarrow>
                  Inr \<lparr> h_metrics = metrics, h_processes = processes,
                        h_network = network \<rparr>)))"

section \<open>Notions used to state the properties\<close>

text \<open>The bucket of the status summary that a status is counted in.\<close>

definition status_keys :: "string list" where
  "status_keys = [''running'', ''sleeping'', ''stopped'', ''zombie'', ''other'']"

definition bucket :: "string \<Rightarrow> string" where
  "bucket status = (if status \<in> set status_keys then status else ''other'')"

text \<open>Two processes, and a process table in which a third one has vanished.\<close>

definition proc_a :: pinfo where
  "proc_a =
     \<lparr> pi_pid = 1, pi_name = ''init'', pi_username = Some ''root'', pi_status = ''sleeping'',
       pi_cpu_percent = Some (1 / 2), pi_memory_percent = Some (5 / 4),
       pi_memory_info = Some 1048576, pi_num_threads = 1, pi_create_time = 0 \<rparr>"

definition proc_b :: pinfo where
  "proc_b =
     \<lparr> pi_pid = 2, pi_name = ''python'', pi_username = None, pi_status = ''running'',
       pi_cpu_percent = Some 12, pi_memory_percent = Some (7 / 2),
       pi_memory_info = None, pi_num_threads = 4, pi_create_time = 10 \<rparr>"

definition table_ex :: "(py_exn + pinfo) list" where
  "table_ex = [Inr proc_a, Inl NoSuchProcess, Inr proc_b]"

definition statuses_ex :: "(py_exn + string) list" where
  "statuses_ex = [Inr ''sleeping'', Inr ''running'', Inl AccessDenied, Inr ''idle'']"


text \<open>
  The records that the claim on listening ports is about: one for each connection whose
  status is \<open>LISTEN\<close> and whose local port is an integer, in the order of enumeration.
\<close>

definition listen_records :: "conn list \<Rightarrow> listening_port list" where
  "listen_records connections =
     [\<lparr> l_port = port, l_address = c_local_address c, l_pid = c_pid c \<rparr>.
        c \<leftarrow> connections, c_status c = ''LISTEN'', Val port \<leftarrow> [c_local_port c]]"

text \<open>The protocol a type string is counted under, if any: the first test that holds.\<close>

definition protocol_of :: "string \<Rightarrow> string option" where
  "protocol_of t = (if sublist ''STREAM'' t then Some ''TCP''
                    else if sublist ''DGRAM'' t then Some ''UDP'' else None)"

definition empty_summary :: network_summary where
  "empty_summary =
     \<lparr> total_connections = 0, by_status = [], by_protocol = [], listening_ports = [] \<rparr>"

text \<open>The sixteen spellings of \<open>json\<close> in upper and lower case.\<close>

definition json_spellings :: "string list" where
  "json_spellings = [[a, b, c, d]. a \<leftarrow> ''jJ'', b \<leftarrow> ''sS'', c \<leftarrow> ''oO'', d \<leftarrow> ''nN'']"

text \<open>
  Connections: two listeners on port 80 and one on port 22, a UDP socket, a socket whose
  type prints as a number, and a listener without local address.
\<close>

definition sconn_listen_80 :: sconn where
  "sconn_listen_80 =
     \<lparr> sc_fd = 3, sc_family = ''AddressFamily.AF_INET'', sc_type = Kind SOCK_STREAM,
       sc_laddr = Some (''0.0.0.0'', 80), sc_raddr = None, sc_status = ''LISTEN'',
       sc_pid = Some 10 \<rparr>"

definition sconn_listen_22 :: sconn where
  "sconn_listen_22 =
     \<lparr> sc_fd = 4, sc_family = ''AddressFamily.AF_INET'', sc_type = Kind SOCK_STREAM,
       sc_laddr = Some (''0.0.0.0'', 22), sc_raddr = None, sc_status = ''LISTEN'',
       sc_pid = Some 0 \<rparr>"

definition sconn_listen_80b :: sconn where
  "sconn_listen_80b =
     \<lparr> sc_fd = 5, sc_family = ''AddressFamily.AF_INET6'', sc_type = Kind SOCK_STREAM,
       sc_laddr = Some (''::'', 80), sc_raddr = None, sc_status = ''LISTEN'',
       sc_pid = Some 11 \<rparr>"

definition sconn_udp :: sconn where
  "sconn_udp =
     \<lparr> sc_fd = 6, sc_family = ''AddressFamily.AF_INET'', sc_type = Kind SOCK_DGRAM,
       sc_laddr = Some (''127.0.0.1'', 53), sc_raddr = None, sc_status = ''NONE'',
       sc_pid = None \<rparr>"

definition sconn_raw :: sconn where
  "sconn_raw =
     \<lparr> sc_fd = 7, sc_family = ''AddressFamily.AF_INET'', sc_type = Num 3,
       sc_laddr = Some (''10.0.0.1'', 4000), sc_raddr = Some (''10.0.0.2'', 443),
       sc_status = ''ESTABLISHED'', sc_pid = Some 12 \<rparr>"

definition sconn_listen_no_addr :: sconn where
  "sconn_listen_no_addr =
     \<lparr> sc_fd = 8, sc_family = ''AddressFamily.AF_INET'', sc_type = Kind SOCK_STREAM,
       sc_laddr = None, sc_raddr = None, sc_status = ''LISTEN'', sc_pid = Some 13 \<rparr>"

definition net_ex :: "py_exn + (py_exn + sconn) list" where
  "net_ex =
     Inr [Inr sconn_listen_80, Inr sconn_udp, Inl AttributeError, Inr sconn_listen_22,
          Inr sconn_raw, Inr sconn_listen_80b]"

definition conns_ex :: "conn list" where
  "conns_ex =
     map conn_of [sconn_listen_80, sconn_udp, sconn_listen_22, sconn_raw, sconn_listen_80b]"

text \<open>A run in which the operating system refuses both readings of the connections.\<close>

definition probe_denied :: "(string, string) probe" where
  "probe_denied =
     \<lparr> pr_metrics = Inr ''metrics'', pr_table1 = statuses_ex, pr_table2 = table_ex,
       pr_table3 = table_ex, pr_net1 = Inl AccessDenied, pr_interfaces = Inr ''interfaces'',
       pr_net2 = Inl AccessDenied \<rparr>"


section \<open>Sorting, slicing and counting\<close>

lemma length_py_sort_reverse: "length (py_sort_reverse k xs) = length xs"
  by (simp add: py_sort_reverse_def)

lemma mset_py_sort_reverse: "mset (py_sort_reverse k xs) = mset xs"
  by (simp add: py_sort_reverse_def)

lemma sorted_py_sort_reverse: "sorted_wrt (\<lambda>a b. k b \<le> k a) (py_sort_reverse k xs)"
proof -
  have "sorted (map k (sort_key k (rev xs)))" by simp
  then have "sorted_wrt (\<lambda>a b. k a \<le> k b) (sort_key k (rev xs))"
    by (simp add: sorted_wrt_map)
  then show ?thesis by (simp add: py_sort_reverse_def sorted_wrt_rev)
qed

lemma stable_py_sort_reverse:
  "filter (\<lambda>x. k x = v) (py_sort_reverse k xs) = filter (\<lambda>x. k x = v) xs"
  by (simp add: py_sort_reverse_def sort_key_stable flip: rev_filter)

lemma length_sort_processes: "length (sort_processes sb ps) = length ps"
  by (simp add: sort_processes_def py_sort_def py_sort_reverse_def)

lemma mset_sort_processes: "mset (sort_processes sb ps) = mset ps"
  by (simp add: sort_processes_def py_sort_def py_sort_reverse_def)

lemma apply_limit_zero: "apply_limit (Some 0) xs = apply_limit None xs"
  by (simp add: apply_limit_def)

lemma apply_limit_pos: "0 < n \<Longrightarrow> apply_limit (Some n) xs = take (nat n) xs"
  by (simp add: apply_limit_def slice_to_def)

lemma apply_limit_neg:
  assumes "n < 0"
  shows "apply_limit (Some n) xs = take (length xs - nat (- n)) xs"
proof -
  from assms have "nat (int (length xs) + n) = length xs - nat (- n)" by linarith
  with assms show ?thesis by (simp add: apply_limit_def slice_to_def)
qed

lemma fst_dict_incr: "map fst (dict_incr k d) = map fst d"
  by (induction k d rule: dict_incr.induct) auto

lemma sum_dict_incr:
  "sum_list (map snd (dict_incr k d)) = sum_list (map snd d) + (if k \<in> fst ` set d then 1 else 0)"
  by (induction k d rule: dict_incr.induct) (auto simp: image_iff)

lemma dict_get_dict_incr:
  "dict_get (dict_incr k d) k' =
     dict_get d k' + (if k' = k \<and> k \<in> fst ` set d then 1 else 0)"
  by (induction k d rule: dict_incr.induct) (force simp: dict_get_def)+


section \<open>The process collector\<close>

lemma enumerate_loop_Inr:
  "enumerate_loop table acc = Inr ps \<Longrightarrow> ps = acc @ map process_of (survivors table)"
  by (induction table acc rule: enumerate_loop.induct) (auto simp: survivors_def split: if_splits)

lemma enumerate_loop_total:
  "\<forall>e. Inl e \<in> set table \<longrightarrow> except_any [NoSuchProcess, AccessDenied, ZombieProcess] e \<Longrightarrow>
   enumerate_loop table acc = Inr (acc @ map process_of (survivors table))"
  by (induction table acc rule: enumerate_loop.induct) (auto simp: survivors_def)

lemma enumerate_processes_None:
  "enumerate_processes sort_by None table = Inr full \<Longrightarrow>
   enumerate_loop table [] = Inr (map process_of (survivors table)) \<and>
   full = sort_processes sort_by (map process_of (survivors table))"
  by (auto simp: enumerate_processes_def apply_limit_def split: sum.splits
      dest: enumerate_loop_Inr)

text \<open>A limit of 0 is taken for no limit at all.\<close>

lemma enumerate_processes_limit_zero:
  "enumerate_processes sb (Some 0) table = enumerate_processes sb None table"
  by (simp add: enumerate_processes_def apply_limit_zero split: sum.splits)

text \<open>A positive limit \<open>N\<close> keeps the first \<open>N\<close> records of the sorted list.\<close>

lemma enumerate_processes_positive_limit:
  assumes "0 < N" and "enumerate_processes sort_by None table = Inr full"
  shows "enumerate_processes sort_by (Some N) table = Inr (take (nat N) full) \<and>
         int (length (take (nat N) full)) = min N (int (length (survivors table)))"
proof -
  from enumerate_processes_None[OF assms(2)] have
    loop: "enumerate_loop table [] = Inr (map process_of (survivors table))" and
    full: "full = sort_processes sort_by (map process_of (survivors table))" by simp_all
  show ?thesis using assms(1)
    by (simp add: enumerate_processes_def loop apply_limit_pos full length_sort_processes)
qed

text \<open>Whatever the limit, the memory and CPU rankings are in non-increasing order.\<close>

lemma enumerate_processes_ranked:
  assumes "enumerate_processes sort_by limit table = Inr ps"
  shows "(sort_by = ''memory'' \<longrightarrow>
            sorted_wrt (\<lambda>a b. p_memory_percent b \<le> p_memory_percent a) ps) \<and>
         (sort_by = ''cpu'' \<longrightarrow> sorted_wrt (\<lambda>a b. p_cpu_percent b \<le> p_cpu_percent a) ps)"
proof -
  from assms obtain xs where ps: "ps = apply_limit limit (sort_processes sort_by xs)"
    by (auto simp: enumerate_processes_def split: sum.splits)
  have tk: "\<And>P (ys :: process list). sorted_wrt P ys \<Longrightarrow> sorted_wrt P (apply_limit limit ys)"
    by (auto simp: apply_limit_def slice_to_def sorted_wrt_take split: option.splits)
  show ?thesis unfolding ps
    by (auto intro!: tk simp: sort_processes_def sorted_py_sort_reverse)
qed

text \<open>
  Claim C1.  For every \<open>N \<ge> 0\<close>, \<open>collect_process_info(top_n=N)\<close> is claimed to return
  two ranking lists of length \<open>min(N, count)\<close>, both empty for \<open>N = 0\<close>.  On a table
  with two surviving processes and \<open>top_n = 0\<close> the code returns both of them in each
  ranking list: the test \<open>if limit:\<close> fails for 0 as it does for \<open>None\<close>, and nothing is
  cut.  The summary counts are those of the table.
\<close>

theorem collect_process_info_top_n_zero:
  "collect_process_info 0 statuses_ex table_ex table_ex =
     Inr \<lparr> summary = [(''total_processes'', 3), (''running'', 1), (''sleeping'', 1),
                      (''stopped'', 0), (''zombie'', 0), (''other'', 1)],
           top_processes_by_memory = [process_of proc_b, process_of proc_a],
           top_processes_by_cpu = [process_of proc_b, process_of proc_a] \<rparr> \<and>
   length (survivors table_ex) = 2"
  by code_simp

text \<open>
  Claim C5.  The memory ranking is claimed to be the list sorted non-increasing by
  \<open>memory_percent\<close> and then truncated to \<open>topN\<close>.  The sort is as claimed
  (\<open>enumerate_processes_ranked\<close>, \<open>enumerate_processes_positive_limit\<close>), but with
  \<open>topN = 0\<close> the sorted list is returned whole, here with its two records, where
  the truncation to 0 is the empty list.
\<close>

theorem enumerate_processes_memory_limit_zero:
  "enumerate_processes ''memory'' (Some 0) table_ex = Inr [process_of proc_b, process_of proc_a] \<and>
   enumerate_processes ''memory'' None table_ex = Inr [process_of proc_b, process_of proc_a] \<and>
   enumerate_processes ''cpu'' (Some 0) table_ex = Inr [process_of proc_b, process_of proc_a] \<and>
   take 0 [process_of proc_b, process_of proc_a] = []"
  by code_simp

text \<open>
  Claim C8.  For a negative limit \<open>L\<close>, \<open>enumerate_processes(sort_by, limit=L)\<close>
  returns the sorted list of the surviving records without its last \<open>|L|\<close> records
  (\<open>processes[:L]\<close>): it does not fail where the call without limit does not, its
  length is \<open>max(0, count - |L|)\<close>, and it is not the full list when there is a record
  at all.
\<close>

theorem enumerate_processes_negative_limit:
  assumes "L < 0" and "enumerate_processes sort_by None table = Inr full"
  shows "enumerate_processes sort_by (Some L) table = Inr (take (length full - nat (- L)) full) \<and>
         full = sort_processes sort_by (map process_of (survivors table)) \<and>
         int (length (take (length full - nat (- L)) full)) =
           max 0 (int (length (survivors table)) - \<bar>L\<bar>) \<and>
         (full \<noteq> [] \<longrightarrow> take (length full - nat (- L)) full \<noteq> full)"
proof -
  from enumerate_processes_None[OF assms(2)] have
    loop: "enumerate_loop table [] = Inr (map process_of (survivors table))" and
    full: "full = sort_processes sort_by (map process_of (survivors table))" by simp_all
  have len: "length full = length (survivors table)"
    by (simp add: full length_sort_processes)
  have res: "enumerate_processes sort_by (Some L) table = Inr (take (length full - nat (- L)) full)"
    using assms(1) by (simp add: enumerate_processes_def loop apply_limit_neg full)
  have l: "int (length (take (length full - nat (- L)) full)) =
           max 0 (int (length (survivors table)) - \<bar>L\<bar>)"
    using assms(1) len by simp
  have ne: "full \<noteq> [] \<longrightarrow> take (length full - nat (- L)) full \<noteq> full"
  proof
    assume "full \<noteq> []"
    then have "length (take (length full - nat (- L)) full) < length full"
      using assms(1) by (cases full) auto
    then show "take (length full - nat (- L)) full \<noteq> full" by auto
  qed
  from res full l ne show ?thesis by blast
qed

theorem enumerate_processes_negative_limit_witness:
  "(- 1 :: int) < 0 \<and>
   enumerate_processes ''cpu'' None table_ex = Inr [process_of proc_b, process_of proc_a] \<and>
   enumerate_processes ''cpu'' (Some (- 1)) table_ex = Inr [process_of proc_b]"
proof -
  have h1: "(- 1 :: int) < 0" by simp
  have h2: "enumerate_processes ''cpu'' None table_ex = Inr [process_of proc_b, process_of proc_a]"
    by code_simp
  from enumerate_processes_negative_limit[OF h1 h2] h1 h2 show ?thesis by simp
qed

subsection \<open>The status summary\<close>

lemma keys_status_count0: "map fst status_count0 = status_keys"
  by (simp add: status_count0_def status_keys_def)

lemma dict_get_status_count0: "dict_get status_count0 k = 0"
  by (simp add: status_count0_def dict_get_def)

lemma sum_status_count0: "sum_list (map snd status_count0) = 0"
  by (simp add: status_count0_def)

lemma set_fst_keys: "map fst sc = status_keys \<Longrightarrow> fst ` set sc = set status_keys"
  by (metis set_map)

lemma bucket_in_keys: "bucket st \<in> set status_keys"
  by (simp add: bucket_def status_keys_def)

lemma count_status_keys:
  "map fst sc = status_keys \<Longrightarrow> map fst (count_status st sc) = status_keys"
  by (simp add: count_status_def fst_dict_incr)

lemma count_status_bucket:
  assumes "map fst sc = status_keys"
  shows "count_status st sc = dict_incr (bucket st) sc"
  using set_fst_keys[OF assms] by (simp add: count_status_def bucket_def)

text \<open>One status moves exactly one bucket, by one.\<close>

lemma count_status_get:
  assumes "map fst sc = status_keys"
  shows "dict_get (count_status st sc) k = dict_get sc k + (if k = bucket st then 1 else 0)"
  using assms bucket_in_keys[of st] set_fst_keys[OF assms]
  by (simp add: count_status_bucket dict_get_dict_incr)

lemma count_status_sum:
  assumes "map fst sc = status_keys"
  shows "sum_list (map snd (count_status st sc)) = sum_list (map snd sc) + 1"
  using assms bucket_in_keys[of st] set_fst_keys[OF assms]
  by (simp add: count_status_bucket sum_dict_incr)

lemma summary_loop_Inr:
  "summary_loop table sc = Inr sc' \<Longrightarrow> map fst sc = status_keys \<Longrightarrow>
   map fst sc' = status_keys \<and>
   sum_list (map snd sc') = sum_list (map snd sc) + int (length (survivors table)) \<and>
   (\<forall>k. dict_get sc' k = dict_get sc k + int (length [st \<leftarrow> survivors table. bucket st = k]))"
proof (induction table sc rule: summary_loop.induct)
  case (1 sc)
  then show ?case by (simp add: survivors_def)
next
  case (2 status rest sc)
  from 2 have *: "summary_loop rest (count_status status sc) = Inr sc'" by simp
  note ih = "2.IH"[OF * count_status_keys[OF "2.prems"(2)]]
  show ?case using ih "2.prems"(2)
    by (auto simp: survivors_def count_status_get count_status_sum)
next
  case (3 e rest sc)
  then show ?case by (auto simp: survivors_def split: if_splits)
qed

lemma sum_five_buckets:
  assumes "map fst sc = status_keys"
  shows "sum_list (map snd sc) =
         dict_get sc ''running'' + dict_get sc ''sleeping'' + dict_get sc ''stopped'' +
         dict_get sc ''zombie'' + dict_get sc ''other''"
proof -
  from assms obtain a b c d e where
    "sc = [(''running'', a), (''sleeping'', b), (''stopped'', c), (''zombie'', d), (''other'', e)]"
    by (auto simp: status_keys_def map_eq_Cons_conv)
  then show ?thesis by (simp add: dict_get_def)
qed

text \<open>
  Claim C4.  The status summary is exhaustive: when \<open>get_process_summary\<close> returns, its
  keys are \<open>total_processes\<close> and the five buckets, each bucket holds the number of
  surviving processes whose status falls in it (a status that names no bucket falls in
  \<open>other\<close>, so every process is counted in exactly one), and the five buckets sum to
  \<open>total_processes\<close>, which is the number of processes the pass got through.
\<close>

theorem process_summary_exhaustive:
  assumes "get_process_summary table = Inr s"
  shows "map fst s = ''total_processes'' # status_keys \<and>
         dict_get s ''running'' + dict_get s ''sleeping'' + dict_get s ''stopped'' +
           dict_get s ''zombie'' + dict_get s ''other'' = dict_get s ''total_processes'' \<and>
         dict_get s ''total_processes'' = int (length (survivors table)) \<and>
         (\<forall>k \<in> set status_keys.
            dict_get s k = int (length [st \<leftarrow> survivors table. bucket st = k]))"
proof -
  from assms obtain sc where
    loop: "summary_loop table status_count0 = Inr sc" and
    s: "s = (''total_processes'', sum_list (dict_values sc)) # sc"
    by (auto simp: get_process_summary_def split: sum.splits)
  from summary_loop_Inr[OF loop keys_status_count0] have
    keys: "map fst sc = status_keys" and
    total: "sum_list (map snd sc) = int (length (survivors table))" and
    each: "\<And>k. dict_get sc k = int (length [st \<leftarrow> survivors table. bucket st = k])"
    by (simp_all add: sum_status_count0 dict_get_status_count0)
  have other: "\<And>k. k \<in> set status_keys \<Longrightarrow> dict_get s k = dict_get sc k"
    by (auto simp: s dict_get_def status_keys_def)
  have tot: "dict_get s ''total_processes'' = sum_list (map snd sc)"
    by (simp add: s dict_get_def dict_values_def)
  have five: "dict_get s ''running'' + dict_get s ''sleeping'' + dict_get s ''stopped'' +
           dict_get s ''zombie'' + dict_get s ''other'' = sum_list (map snd sc)"
    using sum_five_buckets[OF keys] other by (simp add: status_keys_def)
  show ?thesis using keys tot five total each other by (simp add: s)
qed

theorem process_summary_exhaustive_witness:
  "get_process_summary statuses_ex =
     Inr [(''total_processes'', 3), (''running'', 1), (''sleeping'', 1), (''stopped'', 0),
          (''zombie'', 0), (''other'', 1)] \<and>
   dict_get [(''total_processes'', 3), (''running'', 1), (''sleeping'', 1), (''stopped'', 0),
          (''zombie'', 0), (''other'', 1)] ''total_processes'' =
     int (length (survivors statuses_ex))"
proof -
  have h: "get_process_summary statuses_ex =
     Inr [(''total_processes'', 3), (''running'', 1), (''sleeping'', 1), (''stopped'', 0),
          (''zombie'', 0), (''other'', 1)]"
    by code_simp
  from process_summary_exhaustive[OF h] h show ?thesis by blast
qed

section \<open>The network collector\<close>

lemma sum_defaultdict_incr:
  "sum_list (map snd (defaultdict_incr k d)) = sum_list (map snd d) + 1"
  by (induction k d rule: defaultdict_incr.induct) auto

lemma dict_get_defaultdict_incr:
  "dict_get (defaultdict_incr k d) k' = dict_get d k' + (if k' = k then 1 else 0)"
  by (induction k d rule: defaultdict_incr.induct) (auto simp: dict_get_def)

lemma keys_defaultdict_incr:
  "fst ` set (defaultdict_incr k d) = insert k (fst ` set d)"
  by (induction k d rule: defaultdict_incr.induct) auto

lemma distinct_defaultdict_incr:
  "distinct (map fst d) \<Longrightarrow> distinct (map fst (defaultdict_incr k d))"
  by (induction k d rule: defaultdict_incr.induct) (auto simp: keys_defaultdict_incr)

lemma network_loop_status:
  "network_loop connections acc = acc' \<Longrightarrow>
   sum_list (map snd (fst acc')) = sum_list (map snd (fst acc)) + int (length connections) \<and>
   (\<forall>k. dict_get (fst acc') k = dict_get (fst acc) k + int (length [c \<leftarrow> connections. c_status c = k])) \<and>
   fst ` set (fst acc') = fst ` set (fst acc) \<union> c_status ` set connections \<and>
   (distinct (map fst (fst acc)) \<longrightarrow> distinct (map fst (fst acc')))"
proof (induction connections arbitrary: acc)
  case Nil
  then show ?case by simp
next
  case (Cons c rest)
  obtain sc pc lp where acc: "acc = (sc, pc, lp)" by (cases acc) auto
  from Cons.prems have "network_loop rest (summary_step c acc) = acc'" by simp
  note ih = Cons.IH[OF this]
  have f: "fst (summary_step c acc) = defaultdict_incr (c_status c) (fst acc)"
    by (simp add: summary_step_def acc)
  show ?case using ih unfolding f
    by (auto simp: sum_defaultdict_incr dict_get_defaultdict_incr keys_defaultdict_incr
        distinct_defaultdict_incr)
qed

lemma network_loop_protocol:
  "network_loop connections acc = acc' \<Longrightarrow>
   sum_list (map snd (fst (snd acc'))) =
     sum_list (map snd (fst (snd acc))) + int (length [c \<leftarrow> connections. protocol_of (c_type c) \<noteq> None]) \<and>
   (\<forall>k. dict_get (fst (snd acc')) k =
      dict_get (fst (snd acc)) k + int (length [c \<leftarrow> connections. protocol_of (c_type c) = Some k])) \<and>
   fst ` set (fst (snd acc')) =
     fst ` set (fst (snd acc)) \<union> {k. \<exists>c \<in> set connections. protocol_of (c_type c) = Some k}"
proof (induction connections arbitrary: acc)
  case Nil
  then show ?case by simp
next
  case (Cons c rest)
  obtain sc pc lp where acc: "acc = (sc, pc, lp)" by (cases acc) auto
  from Cons.prems have "network_loop rest (summary_step c acc) = acc'" by simp
  note ih = Cons.IH[OF this]
  have f: "fst (snd (summary_step c acc)) =
     (case protocol_of (c_type c) of None \<Rightarrow> fst (snd acc)
      | Some k \<Rightarrow> defaultdict_incr k (fst (snd acc)))"
    by (simp add: summary_step_def acc protocol_of_def)
  show ?case
  proof (cases "protocol_of (c_type c)")
    case None
    with ih show ?thesis unfolding f by simp
  next
    case (Some k)
    with ih show ?thesis unfolding f
      by (auto simp: sum_defaultdict_incr dict_get_defaultdict_incr keys_defaultdict_incr)
  qed
qed

lemma network_loop_ports:
  "snd (snd (network_loop connections acc)) = snd (snd acc) @ listen_records connections"
proof (induction connections arbitrary: acc)
  case Nil
  then show ?case by (simp add: listen_records_def)
next
  case (Cons c rest)
  obtain sc pc lp where acc: "acc = (sc, pc, lp)" by (cases acc) auto
  have f: "snd (snd (summary_step c acc)) = snd (snd acc) @ listen_records [c]"
    by (simp add: summary_step_def acc listen_records_def split: or_na.splits)
  have "listen_records (c # rest) = listen_records [c] @ listen_records rest"
    by (simp add: listen_records_def)
  with Cons.IH[of "summary_step c acc"] f show ?case by simp
qed


lemma get_network_summary_Inr:
  "collect_network_connections net = Inr connections \<Longrightarrow>
   get_network_summary net = Inr (summarize connections)"
  by (simp add: get_network_summary_def)

lemma by_status_summarize: "by_status (summarize cs) = fst (network_loop cs ([], [], []))"
  by (simp add: summarize_def split: prod.splits)

lemma by_protocol_summarize: "by_protocol (summarize cs) = fst (snd (network_loop cs ([], [], [])))"
  by (simp add: summarize_def split: prod.splits)

lemma listening_ports_summarize:
  "listening_ports (summarize cs) = sort_key l_port (listen_records cs)"
  using network_loop_ports[of cs "([], [], [])"]
  by (cases "network_loop cs ([], [], [])") (simp add: summarize_def py_sort_def)

lemma total_connections_summarize: "total_connections (summarize cs) = int (length cs)"
  by (simp add: summarize_def split: prod.splits)

lemma dict_get_Nil: "dict_get [] k = 0"
  by (simp add: dict_get_def)

lemma listen_records_fields:
  "map (\<lambda>r. (Val (l_port r), l_address r, l_pid r)) (listen_records cs) =
   map (\<lambda>c. (c_local_port c, c_local_address c, c_pid c))
     [c \<leftarrow> cs. c_status c = ''LISTEN'' \<and> c_local_port c \<noteq> NA]"
  by (induction cs) (auto simp: listen_records_def split: or_na.splits)

lemma collect_conns_ex: "collect_network_connections net_ex = Inr conns_ex"
  by code_simp

text \<open>
  Claim C9.  For the connections that \<open>collect_network_connections\<close> returns, the
  summary is produced, \<open>total_connections\<close> is their number, the counts of
  \<open>by_status\<close> sum to it, and \<open>by_status\<close> has one key for each status that
  occurs, holding the number of connections with that status.
\<close>

theorem by_status_sums_to_total:
  assumes "collect_network_connections net = Inr connections"
  shows "get_network_summary net = Inr (summarize connections) \<and>
         total_connections (summarize connections) = int (length connections) \<and>
         sum_list (dict_values (by_status (summarize connections))) =
           total_connections (summarize connections) \<and>
         distinct (map fst (by_status (summarize connections))) \<and>
         fst ` set (by_status (summarize connections)) = c_status ` set connections \<and>
         (\<forall>k. dict_get (by_status (summarize connections)) k =
                int (length [c \<leftarrow> connections. c_status c = k]))"
proof -
  from network_loop_status[OF refl, of connections "([], [], [])"]
  show ?thesis
    using get_network_summary_Inr[OF assms]
    by (simp add: by_status_summarize total_connections_summarize dict_values_def dict_get_Nil)
qed

theorem by_status_sums_to_total_witness:
  "collect_network_connections net_ex =
     Inr conns_ex \<and>
   by_status (summarize conns_ex) =
     [(''LISTEN'', 3), (''NONE'', 1), (''ESTABLISHED'', 1)] \<and>
   total_connections (summarize conns_ex) = 5"
proof -
  have h: "collect_network_connections net_ex = Inr conns_ex"
    by (rule collect_conns_ex)
  have v: "by_status (summarize conns_ex) =
     [(''LISTEN'', 3), (''NONE'', 1), (''ESTABLISHED'', 1)]"
    by code_simp
  have l: "length conns_ex = 5" by (simp add: conns_ex_def)
  from by_status_sums_to_total[OF h] h v l show ?thesis by simp
qed

text \<open>No type string holds both words, so at most one of the two tests can hold.\<close>

lemma set_str_nat: "set (str_nat n) \<subseteq> set ''0123456789''"
proof (induction n rule: str_nat.induct)
  case (1 n)
  have d: "\<And>k. k < 10 \<Longrightarrow> ''0123456789'' ! k \<in> set ''0123456789''"
    by (rule nth_mem) simp
  show ?case
  proof (cases "n < 10")
    case True
    have "str_nat n = [''0123456789'' ! n]"
      using True by (subst str_nat.simps) simp
    then show ?thesis using d[OF True] by simp
  next
    case False
    have e: "str_nat n = str_nat (n div 10) @ [''0123456789'' ! (n mod 10)]"
      using False by (subst str_nat.simps) simp
    have "n mod 10 < 10" by simp
    from d[OF this] "1.IH"[OF False] show ?thesis unfolding e by simp
  qed
qed

lemma str_int_examples: "str_int 3 = ''3'' \<and> str_int 2048 = ''2048'' \<and> str_int (- 12) = ''-12''"
  by (simp add: str_int_def str_nat.simps)

lemma str_nat_no_letter: "CHR ''S'' \<notin> set (str_nat n)" "CHR ''D'' \<notin> set (str_nat n)"
proof -
  have "CHR ''S'' \<notin> set ''0123456789''" "CHR ''D'' \<notin> set ''0123456789''"
    by simp_all
  with set_str_nat[of n] show "CHR ''S'' \<notin> set (str_nat n)" "CHR ''D'' \<notin> set (str_nat n)"
    by blast+
qed

lemma str_int_no_letter: "CHR ''S'' \<notin> set (str_int i)" "CHR ''D'' \<notin> set (str_int i)"
  by (simp_all add: str_int_def str_nat_no_letter)

lemma str_int_no_word:
  "\<not> sublist ''STREAM'' (str_int i)" "\<not> sublist ''DGRAM'' (str_int i)"
proof -
  show "\<not> sublist ''STREAM'' (str_int i)"
  proof
    assume "sublist ''STREAM'' (str_int i)"
    then have "set ''STREAM'' \<subseteq> set (str_int i)" by (rule set_mono_sublist)
    moreover have "CHR ''S'' \<in> set ''STREAM''" by simp
    ultimately show False using str_int_no_letter(1)[of i] by blast
  qed
  show "\<not> sublist ''DGRAM'' (str_int i)"
  proof
    assume "sublist ''DGRAM'' (str_int i)"
    then have "set ''DGRAM'' \<subseteq> set (str_int i)" by (rule set_mono_sublist)
    moreover have "CHR ''D'' \<in> set ''DGRAM''" by simp
    ultimately show False using str_int_no_letter(2)[of i] by blast
  qed
qed

lemma kind_one_word:
  "\<not> sublist ''DGRAM'' (str_socket_type (Kind SOCK_STREAM))"
  "\<not> sublist ''STREAM'' (str_socket_type (Kind SOCK_DGRAM))"
  "\<not> sublist ''STREAM'' (str_socket_type (Kind SOCK_RAW))"
  "\<not> sublist ''STREAM'' (str_socket_type (Kind SOCK_RDM))"
  "\<not> sublist ''STREAM'' (str_socket_type (Kind SOCK_SEQPACKET))"
  "\<not> sublist ''STREAM'' (str_socket_type (Kind SOCK_CLOEXEC))"
  "\<not> sublist ''STREAM'' (str_socket_type (Kind SOCK_NONBLOCK))"
  by code_simp+

lemma str_socket_type_one_word:
  "\<not> (sublist ''STREAM'' (str_socket_type t) \<and> sublist ''DGRAM'' (str_socket_type t))"
proof (cases t)
  case (Kind k)
  then show ?thesis using kind_one_word by (cases k) blast+
next
  case (Num i)
  then show ?thesis by (simp add: str_int_no_word)
qed

lemma connections_loop_built:
  "connections_loop items acc = (cs, e) \<Longrightarrow>
   \<forall>c \<in> set cs. c \<in> set acc \<or> (\<exists>s. c = conn_of s)"
  by (induction items acc rule: connections_loop.induct) (auto split: if_splits)

lemma collected_built:
  assumes "collect_network_connections net = Inr connections"
  shows "\<forall>c \<in> set connections. \<exists>s. c = conn_of s"
proof (cases net)
  case (Inl e)
  with assms show ?thesis
    by (auto simp: collect_network_connections_def split: if_splits)
next
  case (Inr items)
  obtain cs e where l: "connections_loop items [] = (cs, e)"
    by (cases "connections_loop items []") auto
  with assms Inr have "connections = cs"
    by (auto simp: collect_network_connections_def split: option.splits if_splits)
  with connections_loop_built[OF l] show ?thesis by simp
qed

lemma collected_one_word:
  assumes "collect_network_connections net = Inr connections" and "c \<in> set connections"
  shows "\<not> (sublist ''STREAM'' (c_type c) \<and> sublist ''DGRAM'' (c_type c))"
proof -
  from collected_built[OF assms(1)] assms(2) obtain s where "c = conn_of s" by blast
  then show ?thesis using str_socket_type_one_word[of "sc_type s"] by (simp add: conn_of_def)
qed

text \<open>
  The counts of \<open>by_protocol\<close> in the order of the tests: \<open>STREAM\<close> first, and
  \<open>DGRAM\<close> only when that fails.
\<close>

lemma protocol_counts:
  assumes "collect_network_connections net = Inr connections"
  shows "get_network_summary net = Inr (summarize connections) \<and>
         total_connections (summarize connections) = int (length connections) \<and>
         dict_get (by_protocol (summarize connections)) ''TCP'' =
           int (length [c \<leftarrow> connections. sublist ''STREAM'' (c_type c)]) \<and>
         dict_get (by_protocol (summarize connections)) ''UDP'' =
           int (length [c \<leftarrow> connections.
                  \<not> sublist ''STREAM'' (c_type c) \<and> sublist ''DGRAM'' (c_type c)]) \<and>
         fst ` set (by_protocol (summarize connections)) \<subseteq> {''TCP'', ''UDP''} \<and>
         sum_list (dict_values (by_protocol (summarize connections))) =
           int (length [c \<leftarrow> connections.
                  sublist ''STREAM'' (c_type c) \<or> sublist ''DGRAM'' (c_type c)])"
proof -
  have tcp: "\<And>t. (protocol_of t = Some ''TCP'') = sublist ''STREAM'' t"
    by (simp add: protocol_of_def)
  have udp: "\<And>t. (protocol_of t = Some ''UDP'') = (\<not> sublist ''STREAM'' t \<and> sublist ''DGRAM'' t)"
    by (simp add: protocol_of_def)
  have some: "\<And>t. (\<exists>k. protocol_of t = Some k) = (sublist ''STREAM'' t \<or> sublist ''DGRAM'' t)"
    by (simp add: protocol_of_def)
  have keys: "\<And>t k. protocol_of t = Some k \<Longrightarrow> k = ''TCP'' \<or> k = ''UDP''"
    by (simp add: protocol_of_def split: if_splits)
  from network_loop_protocol[OF refl, of connections "([], [], [])"]
  have a: "sum_list (map snd (by_protocol (summarize connections))) =
             int (length [c \<leftarrow> connections. protocol_of (c_type c) \<noteq> None])"
    and b: "\<And>k. dict_get (by_protocol (summarize connections)) k =
             int (length [c \<leftarrow> connections. protocol_of (c_type c) = Some k])"
    and c: "fst ` set (by_protocol (summarize connections)) =
             {k. \<exists>c \<in> set connections. protocol_of (c_type c) = Some k}"
    by (simp_all add: by_protocol_summarize dict_get_Nil)
  have c': "fst ` set (by_protocol (summarize connections)) \<subseteq> {''TCP'', ''UDP''}"
    unfolding c using keys by auto
  show ?thesis
    using get_network_summary_Inr[OF assms] a b[of "''TCP''"] b[of "''UDP''"] c'
    by (simp add: total_connections_summarize dict_values_def tcp udp some)
qed

text \<open>
  Claim C7.  For the connections that \<open>collect_network_connections\<close> returns,
  \<open>by_protocol[TCP]\<close> counts the connections whose type string contains
  \<open>STREAM\<close> and \<open>by_protocol[UDP]\<close> those whose type string contains
  \<open>DGRAM\<close>; there is no other key, and a connection whose type contains neither word
  is counted in \<open>total_connections\<close> and in no bucket of \<open>by_protocol\<close>.
\<close>

theorem protocol_by_substring:
  assumes "collect_network_connections net = Inr connections"
  shows "get_network_summary net = Inr (summarize connections) \<and>
         total_connections (summarize connections) = int (length connections) \<and>
         dict_get (by_protocol (summarize connections)) ''TCP'' =
           int (length [c \<leftarrow> connections. sublist ''STREAM'' (c_type c)]) \<and>
         dict_get (by_protocol (summarize connections)) ''UDP'' =
           int (length [c \<leftarrow> connections. sublist ''DGRAM'' (c_type c)]) \<and>
         fst ` set (by_protocol (summarize connections)) \<subseteq> {''TCP'', ''UDP''} \<and>
         sum_list (dict_values (by_protocol (summarize connections))) =
           int (length connections) -
           int (length [c \<leftarrow> connections.
                  \<not> sublist ''STREAM'' (c_type c) \<and> \<not> sublist ''DGRAM'' (c_type c)])"
proof -
  have udp: "[c \<leftarrow> connections. \<not> sublist ''STREAM'' (c_type c) \<and> sublist ''DGRAM'' (c_type c)] =
             [c \<leftarrow> connections. sublist ''DGRAM'' (c_type c)]"
    using collected_one_word[OF assms] by (auto intro: filter_cong)
  have "length [c \<leftarrow> connections. sublist ''STREAM'' (c_type c) \<or> sublist ''DGRAM'' (c_type c)] +
        length [c \<leftarrow> connections.
                  \<not> (sublist ''STREAM'' (c_type c) \<or> sublist ''DGRAM'' (c_type c))] =
        length connections"
    by (rule sum_length_filter_compl)
  then have neither:
    "int (length [c \<leftarrow> connections. sublist ''STREAM'' (c_type c) \<or> sublist ''DGRAM'' (c_type c)]) =
     int (length connections) -
     int (length [c \<leftarrow> connections.
            \<not> sublist ''STREAM'' (c_type c) \<and> \<not> sublist ''DGRAM'' (c_type c)])"
    by simp
  from protocol_counts[OF assms] udp neither show ?thesis by simp
qed

theorem protocol_by_substring_witness:
  "collect_network_connections net_ex = Inr conns_ex \<and>
   get_network_summary net_ex = Inr (summarize conns_ex) \<and>
   map c_type conns_ex =
     [''SocketKind.SOCK_STREAM'', ''SocketKind.SOCK_DGRAM'', ''SocketKind.SOCK_STREAM'',
      ''3'', ''SocketKind.SOCK_STREAM''] \<and>
   by_protocol (summarize conns_ex) = [(''TCP'', 3), (''UDP'', 1)] \<and>
   total_connections (summarize conns_ex) = 5"
proof -
  have h: "collect_network_connections net_ex = Inr conns_ex"
    by (rule collect_conns_ex)
  have v: "by_protocol (summarize conns_ex) = [(''TCP'', 3), (''UDP'', 1)]"
    by code_simp
  have t: "map c_type conns_ex =
     [''SocketKind.SOCK_STREAM'', ''SocketKind.SOCK_DGRAM'', ''SocketKind.SOCK_STREAM'',
      ''3'', ''SocketKind.SOCK_STREAM'']"
    by code_simp
  have l: "length conns_ex = 5" by (simp add: conns_ex_def)
  from protocol_by_substring[OF h] h v t l show ?thesis by simp
qed

text \<open>
  Claim C3, as the code has it.  \<open>listening_ports\<close> holds a \<open>{port, address, pid}\<close>
  record for exactly the connections whose status is \<open>LISTEN\<close> and whose local port
  is not the sentinel \<open>"N/A"\<close>; it is sorted ascending by port, and records with the
  same port keep their order of enumeration.
\<close>

theorem listening_ports_sorted_stable:
  assumes "collect_network_connections net = Inr connections"
  shows "get_network_summary net = Inr (summarize connections) \<and>
         listening_ports (summarize connections) = sort_key l_port (listen_records connections) \<and>
         map (\<lambda>r. (Val (l_port r), l_address r, l_pid r)) (listen_records connections) =
           map (\<lambda>c. (c_local_port c, c_local_address c, c_pid c))
             [c \<leftarrow> connections. c_status c = ''LISTEN'' \<and> c_local_port c \<noteq> NA] \<and>
         mset (listening_ports (summarize connections)) = mset (listen_records connections) \<and>
         sorted (map l_port (listening_ports (summarize connections))) \<and>
         (\<forall>p. [r \<leftarrow> listening_ports (summarize connections). l_port r = p] =
               [r \<leftarrow> listen_records connections. l_port r = p])"
  using get_network_summary_Inr[OF assms]
  by (simp add: listening_ports_summarize sort_key_stable listen_records_fields)

theorem listening_ports_sorted_stable_witness:
  "collect_network_connections net_ex =
     Inr conns_ex \<and>
   listening_ports (summarize conns_ex) =
     [\<lparr> l_port = 22, l_address = ''0.0.0.0'', l_pid = NA \<rparr>,
      \<lparr> l_port = 80, l_address = ''0.0.0.0'', l_pid = Val 10 \<rparr>,
      \<lparr> l_port = 80, l_address = ''::'', l_pid = Val 11 \<rparr>]"
proof -
  have h: "collect_network_connections net_ex = Inr conns_ex"
    by (rule collect_conns_ex)
  have v: "sort_key l_port (listen_records conns_ex) =
     [\<lparr> l_port = 22, l_address = ''0.0.0.0'', l_pid = NA \<rparr>,
      \<lparr> l_port = 80, l_address = ''0.0.0.0'', l_pid = Val 10 \<rparr>,
      \<lparr> l_port = 80, l_address = ''::'', l_pid = Val 11 \<rparr>]"
    by code_simp
  from listening_ports_sorted_stable[OF h] h v show ?thesis by simp
qed

text \<open>
  Claim C3 as stated fails on a connection in state \<open>LISTEN\<close> that has no local
  address: its status is \<open>LISTEN\<close>, and it is not among the listening ports.
\<close>

theorem listen_without_port_counterexample:
  "c_status (conn_of sconn_listen_no_addr) = ''LISTEN'' \<and>
   get_network_summary (Inr [Inr sconn_listen_no_addr]) =
     Inr \<lparr> total_connections = 1, by_status = [(''LISTEN'', 1)],
           by_protocol = [(''TCP'', 1)], listening_ports = [] \<rparr>"
  by code_simp


lemma collect_denied: "collect_network_connections (Inl AccessDenied) = Inr []"
  by (simp add: collect_network_connections_def except_any_def)

lemma summarize_Nil: "summarize [] = empty_summary"
  by (simp add: summarize_def empty_summary_def py_sort_def)

lemma collect_other_exception:
  "collect_network_connections (Inl OtherException) = Inl OtherException"
  by (simp add: collect_network_connections_def except_any_def)

text \<open>
  Claim C6.  When the enumeration of connections is refused as a whole with
  \<open>AccessDenied\<close>, \<open>collect_network_connections\<close> returns the empty list instead
  of raising, the summary is the one of zero connections, and the report of a run in
  which the other collectors succeed is produced with that summary.
\<close>

theorem access_denied_empty_network:
  assumes "pr_net1 os = Inl AccessDenied"
    and "pr_metrics os = Inr m"
    and "collect_process_info (top_processes self) (pr_table1 os) (pr_table2 os) (pr_table3 os) = Inr p"
    and "pr_interfaces os = Inr ifs"
    and "include_all_connections self \<longrightarrow> collect_network_connections (pr_net2 os) = Inr cs"
  shows "collect_network_connections (pr_net1 os) = Inr [] \<and>
         get_network_summary (pr_net1 os) = Inr empty_summary \<and>
         collect_network_info (include_all_connections self) (pr_net1 os) (pr_interfaces os) (pr_net2 os) =
           Inr \<lparr> n_summary = empty_summary, n_interfaces = ifs,
                 n_all_connections = (if include_all_connections self then Some cs else None) \<rparr> \<and>
         collect_all self os =
           Inr \<lparr> h_metrics = m, h_processes = p,
                 h_network = \<lparr> n_summary = empty_summary, n_interfaces = ifs,
                   n_all_connections = (if include_all_connections self then Some cs else None) \<rparr> \<rparr>"
proof -
  have c: "collect_network_connections (pr_net1 os) = Inr []"
    by (simp add: assms(1) collect_denied)
  have s: "get_network_summary (pr_net1 os) = Inr empty_summary"
    by (simp add: get_network_summary_def c summarize_Nil)
  have n: "collect_network_info (include_all_connections self) (pr_net1 os) (pr_interfaces os) (pr_net2 os) =
           Inr \<lparr> n_summary = empty_summary, n_interfaces = ifs,
                 n_all_connections = (if include_all_connections self then Some cs else None) \<rparr>"
    using assms(4,5) by (simp add: collect_network_info_def s)
  have a: "collect_all self os =
           Inr \<lparr> h_metrics = m, h_processes = p,
                 h_network = \<lparr> n_summary = empty_summary, n_interfaces = ifs,
                   n_all_connections = (if include_all_connections self then Some cs else None) \<rparr> \<rparr>"
    by (simp add: collect_all_def assms(2,3) n)
  from c s n a show ?thesis by blast
qed

theorem access_denied_empty_network_witness:
  "pr_net1 probe_denied = Inl AccessDenied \<and>
   collect_all (HealthCollector 20 True ''.'' ''json'') probe_denied =
     Inr \<lparr> h_metrics = ''metrics'',
           h_processes =
             \<lparr> summary = [(''total_processes'', 3), (''running'', 1), (''sleeping'', 1),
                          (''stopped'', 0), (''zombie'', 0), (''other'', 1)],
               top_processes_by_memory = [process_of proc_b, process_of proc_a],
               top_processes_by_cpu = [process_of proc_b, process_of proc_a] \<rparr>,
           h_network = \<lparr> n_summary = empty_summary, n_interfaces = ''interfaces'',
                         n_all_connections = Some [] \<rparr> \<rparr>"
proof -
  let ?self = "HealthCollector 20 True ''.'' ''json''"
  have h1: "pr_net1 probe_denied = Inl AccessDenied" by (simp add: probe_denied_def)
  have h2: "pr_metrics probe_denied = Inr ''metrics''" by (simp add: probe_denied_def)
  have h3: "collect_process_info (top_processes ?self) (pr_table1 probe_denied)
              (pr_table2 probe_denied) (pr_table3 probe_denied) =
            Inr \<lparr> summary = [(''total_processes'', 3), (''running'', 1), (''sleeping'', 1),
                          (''stopped'', 0), (''zombie'', 0), (''other'', 1)],
               top_processes_by_memory = [process_of proc_b, process_of proc_a],
               top_processes_by_cpu = [process_of proc_b, process_of proc_a] \<rparr>"
    by code_simp
  have h4: "pr_interfaces probe_denied = Inr ''interfaces''" by (simp add: probe_denied_def)
  have h5: "include_all_connections ?self \<longrightarrow>
            collect_network_connections (pr_net2 probe_denied) = Inr []"
    by (simp add: probe_denied_def collect_denied)
  from access_denied_empty_network[OF h1 h2 h3 h4 h5] h1
  show ?thesis by (simp add: HealthCollector_def)
qed



section \<open>The logger\<close>

lemma of_char_lower_char:
  "(of_char (lower_char c) :: nat) =
     (if 65 \<le> (of_char c :: nat) \<and> (of_char c :: nat) \<le> 90 then of_char c + 32 else of_char c)"
  by (simp add: lower_char_def Let_def)

lemma lower_char_letter:
  assumes "(of_char x :: nat) = of_char u + 32"
    and "65 \<le> (of_char u :: nat)" and "(of_char u :: nat) \<le> 90"
  shows "lower_char c = x \<longleftrightarrow> c = x \<or> c = u"
proof -
  have "lower_char c = x \<longleftrightarrow> (of_char (lower_char c) :: nat) = of_char x"
    by simp
  also have "\<dots> \<longleftrightarrow> (of_char c :: nat) = of_char x \<or> (of_char c :: nat) = of_char u"
    unfolding of_char_lower_char using assms by auto
  finally show ?thesis by simp
qed

lemma lower_char_j: "lower_char c = CHR ''j'' \<longleftrightarrow> c = CHR ''j'' \<or> c = CHR ''J''"
  by (rule lower_char_letter) simp_all

lemma lower_char_s: "lower_char c = CHR ''s'' \<longleftrightarrow> c = CHR ''s'' \<or> c = CHR ''S''"
  by (rule lower_char_letter) simp_all

lemma lower_char_o: "lower_char c = CHR ''o'' \<longleftrightarrow> c = CHR ''o'' \<or> c = CHR ''O''"
  by (rule lower_char_letter) simp_all

lemma lower_char_n: "lower_char c = CHR ''n'' \<longleftrightarrow> c = CHR ''n'' \<or> c = CHR ''N''"
  by (rule lower_char_letter) simp_all

lemma json_iff: "lower fmt = ''json'' \<longleftrightarrow> fmt \<in> set json_spellings"
proof -
  have "lower fmt = ''json'' \<longleftrightarrow>
        (\<exists>a b c d. fmt = [a, b, c, d] \<and> lower_char a = CHR ''j'' \<and> lower_char b = CHR ''s'' \<and>
           lower_char c = CHR ''o'' \<and> lower_char d = CHR ''n'')"
    by (auto simp: lower_def map_eq_Cons_conv)
  also have "\<dots> \<longleftrightarrow> fmt \<in> set json_spellings"
    unfolding lower_char_j lower_char_s lower_char_o lower_char_n
    by (auto simp: json_spellings_def)
  finally show ?thesis .
qed


text \<open>
  Claim C10.  The format is lowercased when the logger is built.  For each of the
  spellings of \<open>json\<close> in any mix of case, \<open>write_log\<close> writes the structured
  rendering to a file with extension \<open>.json\<close>; for every other string, not only
  \<open>text\<close>, it writes the text layout to a file with extension \<open>.log\<close>.
\<close>

theorem format_selection:
  "format (HealthLogger dir fmt) = lower fmt \<and>
   (fmt \<in> set json_spellings \<longrightarrow>
      format (HealthLogger dir fmt) = ''json'' \<and>
      generate_filename (HealthLogger dir fmt) ts = ''health_monitor_'' @ ts @ ''.json'' \<and>
      write_log format_json format_text (HealthLogger dir fmt) ts d =
        \<lparr> w_dir = dir, w_filename = ''health_monitor_'' @ ts @ ''.json'',
          w_content = format_json d \<rparr>) \<and>
   (fmt \<notin> set json_spellings \<longrightarrow>
      format (HealthLogger dir fmt) \<noteq> ''json'' \<and>
      generate_filename (HealthLogger dir fmt) ts = ''health_monitor_'' @ ts @ ''.log'' \<and>
      write_log format_json format_text (HealthLogger dir fmt) ts d =
        \<lparr> w_dir = dir, w_filename = ''health_monitor_'' @ ts @ ''.log'',
          w_content = format_text d \<rparr>)"
  using json_iff[of fmt]
  by (simp add: HealthLogger_def generate_filename_def write_log_def)

theorem format_selection_witness:
  "''JsOn'' \<in> set json_spellings \<and> ''text'' \<notin> set json_spellings \<and> ''yaml'' \<notin> set json_spellings \<and>
   write_log (\<lambda>d. ''{}'') (\<lambda>d. ''REPORT'') (HealthLogger ''logs'' ''JsOn'') ''20240101_120000'' () =
     \<lparr> w_dir = ''logs'', w_filename = ''health_monitor_20240101_120000.json'', w_content = ''{}'' \<rparr> \<and>
   write_log (\<lambda>d. ''{}'') (\<lambda>d. ''REPORT'') (HealthLogger ''logs'' ''yaml'') ''20240101_120000'' () =
     \<lparr> w_dir = ''logs'', w_filename = ''health_monitor_20240101_120000.log'', w_content = ''REPORT'' \<rparr>"
proof -
  have h1: "''JsOn'' \<in> set json_spellings" by (simp add: json_spellings_def)
  have h2: "''yaml'' \<notin> set json_spellings" by (simp add: json_spellings_def)
  have h3: "''text'' \<notin> set json_spellings" by (simp add: json_spellings_def)
  from format_selection[where fmt = "''JsOn''" and dir = "''logs''" and ts = "''20240101_120000''"
         and format_json = "\<lambda>d. ''{}''" and format_text = "\<lambda>d. ''REPORT''" and d = "()"]
       format_selection[where fmt = "''yaml''" and dir = "''logs''" and ts = "''20240101_120000''"
         and format_json = "\<lambda>d. ''{}''" and format_text = "\<lambda>d. ''REPORT''" and d = "()"]
       h1 h2 h3
  show ?thesis by simp
qed


end
